theory Spec2Isabelle
  imports Main "HOL-Library.Char_ord" "HOL-Library.List_Lexorder" "HOL-Library.Sublist"
begin

section \<open>The class adapter: records stored field by field in an ordered key-value engine\<close>

text \<open>
  The service of \<^verbatim>\<open>cmd/adapter/main.go\<close> keeps every class as two pairs of the engine,
  \<^verbatim>\<open>id.Name\<close> and \<^verbatim>\<open>id.Semester\<close>, and rebuilds the classes from a forward scan.
  Go strings and byte slices are byte sequences: they are \<^typ>\<open>string\<close> here, whose
  characters are bytes, ordered as the engine orders keys (bytewise, lexicographic).
\<close>

subsection \<open>Messages, errors and the engine\<close>

record Class =
  Id' :: string
  Name :: string
  Semester :: string

text \<open>The request of Get: the code reads its fields \<^verbatim>\<open>Id\<close> and \<^verbatim>\<open>Name\<close>.\<close>

record GetRequest =
  req_Id :: string
  req_Name :: string

text \<open>
  An error of the engine is \<^verbatim>\<open>badger.ErrKeyNotFound\<close> or any other error, kept by its
  message; \<^verbatim>\<open>fmt.Errorf\<close> builds an error from a message too.
\<close>

datatype error = ErrKeyNotFound | Err string

fun Error :: "error \<Rightarrow> string" where
  "Error ErrKeyNotFound = ''Key not found''"
| "Error (Err m) = m"

datatype panic = SliceBoundsOutOfRange | IndexOutOfRange

text \<open>
  The calls the code makes on the engine. The engine is a library outside the repository;
  which of its calls fail is a parameter of every operation: a function from the call to
  the error it returns, \<open>None\<close> when the call works.
\<close>

datatype engine_op =
    TxnGet string
  | ItemValue string
  | TxnSet string string
  | TxnDelete string
  | TxnCommit

type_synonym faults = "engine_op \<Rightarrow> error option"

definition healthy :: faults where
  "healthy = (\<lambda>_. None)"

text \<open>
  The rules of the engine on the key of a write (\<^verbatim>\<open>Txn.Set\<close> and \<^verbatim>\<open>Txn.Delete\<close> of
  badger): it refuses an empty key, a key that begins with its reserved prefix
  \<^verbatim>\<open>!badger!\<close> and a key longer than 65000 bytes; no other call fails. The messages
  are abridged.
\<close>

definition badger_keys :: faults where
  "badger_keys op =
     (case op of
        TxnSet k v \<Rightarrow>
          (if k = [] then Some (Err ''Key cannot be empty'')
           else if prefix ''!badger!'' k then Some (Err ''Key is using a reserved !badger! prefix'')
           else if 65000 < length k then Some (Err ''Key exceeded size limit'')
           else None)
      | TxnDelete k \<Rightarrow>
          (if k = [] then Some (Err ''Key cannot be empty'')
           else if prefix ''!badger!'' k then Some (Err ''Key is using a reserved !badger! prefix'')
           else if 65000 < length k then Some (Err ''Key exceeded size limit'')
           else None)
      | _ \<Rightarrow> None)"

text \<open>
  The content of the engine: its pairs in the order of a forward iteration, which is
  the ascending order of the keys. Writing a key replaces its pair or inserts one at
  its place in the order; deleting a key that is absent changes nothing.
\<close>

type_synonym store = "(string \<times> string) list"

fun store_set :: "string \<Rightarrow> string \<Rightarrow> store \<Rightarrow> store" where
  "store_set k v [] = [(k, v)]"
| "store_set k v ((k', v') # s) =
     (if k < k' then (k, v) # (k', v') # s
      else if k = k' then (k, v) # s
      else (k', v') # store_set k v s)"

definition store_delete :: "string \<Rightarrow> store \<Rightarrow> store" where
  "store_delete k s = filter (\<lambda>p. fst p \<noteq> k) s"

definition txn_Get :: "faults \<Rightarrow> store \<Rightarrow> string \<Rightarrow> error + (string \<times> string)" where
  "txn_Get f s k =
     (case f (TxnGet k) of
        Some e \<Rightarrow> Inl e
      | None \<Rightarrow> (case map_of s k of None \<Rightarrow> Inl ErrKeyNotFound | Some v \<Rightarrow> Inr (k, v)))"

definition item_Value :: "faults \<Rightarrow> string \<times> string \<Rightarrow> error + string" where
  "item_Value f item =
     (case f (ItemValue (fst item)) of Some e \<Rightarrow> Inl e | None \<Rightarrow> Inr (snd item))"

definition txn_Set :: "faults \<Rightarrow> string \<Rightarrow> string \<Rightarrow> store \<Rightarrow> error + store" where
  "txn_Set f k v txn =
     (case f (TxnSet k v) of Some e \<Rightarrow> Inl e | None \<Rightarrow> Inr (store_set k v txn))"

definition txn_Delete :: "faults \<Rightarrow> string \<Rightarrow> store \<Rightarrow> error + store" where
  "txn_Delete f k txn =
     (case f (TxnDelete k) of Some e \<Rightarrow> Inl e | None \<Rightarrow> Inr (store_delete k txn))"

text \<open>
  \<^verbatim>\<open>db.Update(fn)\<close> runs \<open>fn\<close> on the pending writes of a transaction and commits; when
  \<open>fn\<close> or the commit returns an error the transaction is discarded and the engine keeps
  its content.
\<close>

definition db_Update :: "faults \<Rightarrow> store \<Rightarrow> (store \<Rightarrow> error + store) \<Rightarrow> store \<times> error option" where
  "db_Update f s fn =
     (case fn s of
        Inl e \<Rightarrow> (s, Some e)
      | Inr txn \<Rightarrow> (case f TxnCommit of Some e \<Rightarrow> (s, Some e) | None \<Rightarrow> (txn, None)))"

text \<open>
  What a method leaves behind: the response and the error it returns to the RPC layer,
  the content of the engine afterwards, and the lines it logged.
\<close>

record 'a rpc =
  resp :: 'a
  rpc_err :: "error option"
  db :: store
  logged :: "string list"

subsection \<open>Keys\<close>

definition delim :: string where
  "delim = ''.''"

text \<open>\<^verbatim>\<open>strings.LastIndex\<close>: the index of the last occurrence, or -1.\<close>

fun LastIndex :: "string \<Rightarrow> string \<Rightarrow> int" where
  "LastIndex [] substr = (if substr = [] then 0 else - 1)"
| "LastIndex (c # s) substr =
     (let r = LastIndex s substr
      in if 0 \<le> r then r + 1 else if prefix substr (c # s) then 0 else - 1)"

text \<open>
  Lines 46 to 48 of List: the key is cut at the last \<^verbatim>\<open>"."\<close>. The slice
  \<^verbatim>\<open>k[:lastIndex]\<close> panics when the index is negative.
\<close>

definition split_key :: "string \<Rightarrow> panic + (string \<times> string)" where
  "split_key k =
     (let lastIndex = LastIndex k ''.''
      in if lastIndex < 0 \<or> int (length k) < lastIndex then Inl SliceBoundsOutOfRange
         else Inr (take (nat lastIndex) k, drop (nat (lastIndex + 1)) k))"

subsection \<open>List\<close>

text \<open>
  The body of the loop over the iterator (lines 43 to 72), on the map from ids to
  positions and the classes collected so far: it returns both, and the error of
  \<^verbatim>\<open>item.Value\<close> when there is one. Indexing the slice of classes beyond its
  length panics.
\<close>

definition List_body ::
  "faults \<Rightarrow> (string \<rightharpoonup> nat) \<Rightarrow> Class list \<Rightarrow> string \<times> string \<Rightarrow>
   panic + ((string \<rightharpoonup> nat) \<times> Class list \<times> error option)" where
  "List_body f classMap classes item =
     (case split_key (fst item) of
        Inl p \<Rightarrow> Inl p
      | Inr (id', param) \<Rightarrow>
          (let (index, classMap, classes) =
                 (case classMap id' of
                    Some index \<Rightarrow> (index, classMap, classes)
                  | None \<Rightarrow> (length classes, classMap(id' \<mapsto> length classes),
                             classes @ [\<lparr>Id' = id', Name = [], Semester = []\<rparr>]))
           in case item_Value f item of
                Inl err \<Rightarrow> Inr (classMap, classes, Some err)
              | Inr v \<Rightarrow>
                  if param = ''Name'' then
                    if index < length classes
                    then Inr (classMap, classes[index := (classes ! index)\<lparr>Name := v\<rparr>], None)
                    else Inl IndexOutOfRange
                  else if param = ''Semester'' then
                    if index < length classes
                    then Inr (classMap, classes[index := (classes ! index)\<lparr>Semester := v\<rparr>], None)
                    else Inl IndexOutOfRange
                  else Inr (classMap, classes, None)))"

text \<open>
  The loop: an error of \<^verbatim>\<open>item.Value\<close> ends the scan, and the classes collected
  until then stay in the response.
\<close>

fun List_loop ::
  "faults \<Rightarrow> (string \<rightharpoonup> nat) \<Rightarrow> Class list \<Rightarrow> store \<Rightarrow> panic + (Class list \<times> error option)" where
  "List_loop f classMap classes [] = Inr (classes, None)"
| "List_loop f classMap classes (item # it) =
     (case List_body f classMap classes item of
        Inl p \<Rightarrow> Inl p
      | Inr (classMap, classes, Some err) \<Rightarrow> Inr (classes, Some err)
      | Inr (classMap, classes, None) \<Rightarrow> List_loop f classMap classes it)"

definition List :: "faults \<Rightarrow> store \<Rightarrow> panic + Class list rpc" where
  "List f s =
     (case List_loop f Map.empty [] s of
        Inl p \<Rightarrow> Inl p
      | Inr (classes, err) \<Rightarrow>
          Inr \<lparr>resp = classes, rpc_err = None, db = s,
               logged = ''List called'' #
                 (case err of
                    Some e \<Rightarrow> [''Error listing from class database: '' @ Error e]
                  | None \<Rightarrow> [])\<rparr>)"

subsection \<open>Get\<close>

text \<open>
  The read transaction of Get fills the class as it goes: the name is assigned before
  the semester is looked up, and an error returns at once with what was assigned.
\<close>

definition Get_view :: "faults \<Rightarrow> store \<Rightarrow> GetRequest \<Rightarrow> Class \<Rightarrow> Class \<times> error option" where
  "Get_view f s inp c =
     (case txn_Get f s (req_Id inp @ delim @ ''Name'') of
        Inl nameErr \<Rightarrow> (c, Some nameErr)
      | Inr n \<Rightarrow>
          (case item_Value f n of
             Inl nameErr \<Rightarrow> (c, Some nameErr)
           | Inr val \<Rightarrow>
               (let c = c\<lparr>Name := val\<rparr>
                in case txn_Get f s (req_Id inp @ delim @ ''Semester'') of
                     Inl semesterErr \<Rightarrow> (c, Some semesterErr)
                   | Inr sm \<Rightarrow>
                       (case item_Value f sm of
                          Inl semesterErr \<Rightarrow> (c, Some semesterErr)
                        | Inr val \<Rightarrow> (c\<lparr>Semester := val\<rparr>, None)))))"

definition Get :: "faults \<Rightarrow> store \<Rightarrow> GetRequest \<Rightarrow> Class rpc" where
  "Get f s inp =
     (let (c, err) = Get_view f s inp \<lparr>Id' = req_Id inp, Name = [], Semester = []\<rparr>
      in \<lparr>resp = c, rpc_err = None, db = s,
          logged = (''Get called for Id '' @ req_Id inp) #
            (case err of
               Some e \<Rightarrow>
                 [''Error reading '' @ req_Name inp @ '' from class database: '' @ Error e]
             | None \<Rightarrow> [])\<rparr>)"

subsection \<open>Create, Update and Delete\<close>

definition put_txn :: "faults \<Rightarrow> Class \<Rightarrow> store \<Rightarrow> error + store" where
  "put_txn f inp txn =
     (case txn_Set f (Id' inp @ delim @ ''Name'') (Name inp) txn of
        Inl err \<Rightarrow> Inl (Err (''put '' @ Id' inp @ delim @ ''Name: '' @ Error err))
      | Inr txn \<Rightarrow>
          (case txn_Set f (Id' inp @ delim @ ''Semester'') (Semester inp) txn of
             Inl err \<Rightarrow> Inl (Err (''put '' @ Id' inp @ delim @ ''Semester: '' @ Error err))
           | Inr txn \<Rightarrow> Inr txn))"

definition Create :: "faults \<Rightarrow> store \<Rightarrow> Class \<Rightarrow> Class rpc" where
  "Create f s inp =
     (let (s', err) = db_Update f s (put_txn f inp)
      in \<lparr>resp = inp, rpc_err = None, db = s',
          logged = (''Create called for Id '' @ Id' inp) #
            (case err of
               Some e \<Rightarrow> [''Error saving '' @ Name inp @ '' to class database: '' @ Error e]
             | None \<Rightarrow> []) @
            [''Added '' @ Name inp @ '' to class database'']\<rparr>)"

definition Update :: "faults \<Rightarrow> store \<Rightarrow> Class \<Rightarrow> Class rpc" where
  "Update f s inp =
     (let (s', err) = db_Update f s (put_txn f inp)
      in \<lparr>resp = inp, rpc_err = None, db = s',
          logged = (''Update called for Id '' @ Id' inp) #
            (case err of
               Some e \<Rightarrow> [''Error saving '' @ Name inp @ '' to class database: '' @ Error e]
             | None \<Rightarrow> []) @
            [''Added '' @ Name inp @ '' to class database'']\<rparr>)"

definition delete_txn :: "faults \<Rightarrow> Class \<Rightarrow> store \<Rightarrow> error + store" where
  "delete_txn f inp txn =
     (case txn_Delete f (Id' inp @ ''.Name'') txn of
        Inl err \<Rightarrow> Inl (Err (''delete '' @ Id' inp @ ''.Name: '' @ Error err))
      | Inr txn \<Rightarrow>
          (case txn_Delete f (Id' inp @ ''.Semester'') txn of
             Inl err \<Rightarrow> Inl (Err (''delete '' @ Id' inp @ ''.Semester: '' @ Error err))
           | Inr txn \<Rightarrow> Inr txn))"

definition Delete :: "faults \<Rightarrow> store \<Rightarrow> Class \<Rightarrow> unit rpc" where
  "Delete f s inp =
     (let (s', err) = db_Update f s (delete_txn f inp)
      in \<lparr>resp = (), rpc_err = None, db = s',
          logged = (''Delete called for Id '' @ Id' inp) #
            (case err of
               Some e \<Rightarrow> [''Error saving '' @ Name inp @ '' to class database: '' @ Error e]
             | None \<Rightarrow> [])\<rparr>)"

subsection \<open>Invariants of the store and of the scan\<close>

text \<open>
  The data model of the store: the key of every stored pair is an id, the separator and
  a field name, so every key contains the separator.
\<close>

definition keys_delimited :: "store \<Rightarrow> bool" where
  "keys_delimited s \<longleftrightarrow> (\<forall>k \<in> fst ` set s. CHR ''.'' \<in> set k)"

text \<open>The map of List sends an id to the position of the class with that id.\<close>

definition classMap_ok :: "(string \<rightharpoonup> nat) \<Rightarrow> Class list \<Rightarrow> bool" where
  "classMap_ok m cs \<longleftrightarrow> (\<forall>i n. m i = Some n \<longrightarrow> n < length cs \<and> Id' (cs ! n) = i)"

text \<open>
  Every field of every class is empty or the value of the pair of \<open>S\<close> whose key is the
  id of the class, the separator and the name of the field.
\<close>

definition fields_from :: "(string \<times> string) set \<Rightarrow> Class list \<Rightarrow> bool" where
  "fields_from S cs \<longleftrightarrow>
     (\<forall>c \<in> set cs. (Name c = [] \<or> (Id' c @ delim @ ''Name'', Name c) \<in> S)
                 \<and> (Semester c = [] \<or> (Id' c @ delim @ ''Semester'', Semester c) \<in> S))"

section \<open>Keys\<close>

lemma LastIndex_absent: "CHR ''.'' \<notin> set s \<Longrightarrow> LastIndex s ''.'' = - 1"
  by (induction s) (auto simp: Let_def)

lemma LastIndex_bounds: "- 1 \<le> LastIndex s sub \<and> LastIndex s sub \<le> int (length s)"
  by (induction s) (auto simp: Let_def)

lemma LastIndex_present: "CHR ''.'' \<in> set s \<Longrightarrow> 0 \<le> LastIndex s ''.''"
  by (induction s) (auto simp: Let_def)

lemma LastIndex_append:
  "CHR ''.'' \<notin> set fld \<Longrightarrow> LastIndex (a @ ''.'' @ fld) ''.'' = int (length a)"
  by (induction a) (auto simp: Let_def LastIndex_absent)

lemma LastIndex_char:
  "0 \<le> LastIndex s ''.'' \<Longrightarrow>
   nat (LastIndex s ''.'') < length s \<and> s ! nat (LastIndex s ''.'') = CHR ''.''"
proof (induction s)
  case Nil
  then show ?case by simp
next
  case (Cons c s)
  show ?case
  proof (cases "0 \<le> LastIndex s ''.''")
    case True
    then have "LastIndex (c # s) ''.'' = LastIndex s ''.'' + 1" by (simp add: Let_def)
    moreover have "nat (LastIndex s ''.'' + 1) = Suc (nat (LastIndex s ''.''))"
      using True by simp
    ultimately show ?thesis using Cons.IH[OF True] by simp
  next
    case False
    with Cons.prems show ?thesis by (simp add: Let_def split: if_splits)
  qed
qed

lemma split_key_encode:
  assumes "CHR ''.'' \<notin> set fld"
  shows "split_key (a @ delim @ fld) = Inr (a, fld)"
proof -
  have "nat (int (length a) + 1) = Suc (length a)" by simp
  with LastIndex_append[OF assms, of a] show ?thesis
    by (simp add: split_key_def delim_def Let_def del: LastIndex.simps)
qed

lemma split_key_decode:
  assumes "split_key k = Inr (i, p)"
  shows "k = i @ delim @ p"
proof -
  let ?n = "nat (LastIndex k ''.'')"
  from assms have nn: "0 \<le> LastIndex k ''.''"
    and i: "i = take ?n k" and p: "p = drop (nat (LastIndex k ''.'' + 1)) k"
    by (auto simp: split_key_def Let_def split: if_splits)
  have suc: "nat (LastIndex k ''.'' + 1) = Suc ?n" using nn by simp
  from LastIndex_char[OF nn] have lt: "?n < length k" and ch: "k ! ?n = CHR ''.''"
    by simp_all
  have "k = take ?n k @ k ! ?n # drop (Suc ?n) k"
    by (rule id_take_nth_drop[OF lt])
  then show ?thesis by (simp add: i p suc delim_def ch)
qed

lemma split_key_ok: "CHR ''.'' \<in> set k \<Longrightarrow> \<exists>i p. split_key k = Inr (i, p)"
  using LastIndex_present[of k] LastIndex_bounds[of k "''.''"] by (simp add: split_key_def Let_def)

text \<open>
  C5. A key built as id, separator, field name is cut back into the same id and field
  name, whatever the id: the id may itself contain the separator, since the key is cut
  at its last occurrence. The field name has no separator (\<^verbatim>\<open>Name\<close> and
  \<^verbatim>\<open>Semester\<close> have none).
\<close>

theorem key_roundtrip:
  "CHR ''.'' \<notin> set fieldName \<Longrightarrow> split_key (id' @ delim @ fieldName) = Inr (id', fieldName)"
  by (rule split_key_encode)

theorem key_roundtrip_witness:
  "CHR ''.'' \<notin> set ''Name'' \<and> ''x.y'' @ delim @ ''Name'' = ''x.y.Name''
   \<and> split_key ''x.y.Name'' = Inr (''x.y'', ''Name'')"
  using key_roundtrip[of "''Name''" "''x.y''"] by (simp add: delim_def)

section \<open>The store\<close>

lemma map_of_store_set_same: "map_of (store_set k v s) k = Some v"
  by (induction s) auto

lemma map_of_store_set_other: "k' \<noteq> k \<Longrightarrow> map_of (store_set k v s) k' = map_of s k'"
  by (induction s) auto


lemma store_set_idem: "store_set k v (store_set k v s) = store_set k v s"
  by (induction s) auto

lemma store_set_absorb:
  "k1 < k2 \<Longrightarrow>
   store_set k1 v1 (store_set k2 v2 (store_set k1 v1 s)) = store_set k2 v2 (store_set k1 v1 s)"
  by (induction s) auto

lemma name_key_less: "a @ delim @ ''Name'' < a @ delim @ ''Semester''"
  by (induction a) (auto simp: delim_def)

lemma set_store_set: "set (store_set k v s) \<subseteq> insert (k, v) (set s)"
  by (induction s) (auto split: if_splits)

lemma set_store_delete: "set (store_delete k s) \<subseteq> set s"
  by (auto simp: store_delete_def)

text \<open>
  Writing and deleting keep the pairs in strictly ascending order of their keys, the
  order in which the engine iterates.
\<close>

lemma keys_store_set: "fst ` set (store_set k v s) \<subseteq> insert k (fst ` set s)"
  using set_store_set[of k v s] by fastforce

lemma sorted_store_set:
  "sorted_wrt (<) (map fst s) \<Longrightarrow> sorted_wrt (<) (map fst (store_set k v s))"
proof (induction s)
  case Nil
  then show ?case by simp
next
  case (Cons a s)
  then show ?case using keys_store_set[of k v s]
    by (cases a) (fastforce simp: not_less)
qed

lemma sorted_store_delete:
  "sorted_wrt (<) (map fst s) \<Longrightarrow> sorted_wrt (<) (map fst (store_delete k s))"
  by (induction s) (auto simp: store_delete_def)

lemma put_twice:
  "store_set (a @ delim @ ''Semester'') v2 (store_set (a @ delim @ ''Name'') v1
     (store_set (a @ delim @ ''Semester'') v2 (store_set (a @ delim @ ''Name'') v1 s)))
   = store_set (a @ delim @ ''Semester'') v2 (store_set (a @ delim @ ''Name'') v1 s)"
  by (simp only: store_set_absorb[OF name_key_less] store_set_idem)

section \<open>Get, Create, Update and Delete\<close>

lemma db_Create_ok:
  assumes "f (TxnSet (Id' R @ delim @ ''Name'') (Name R)) = None"
    and "f (TxnSet (Id' R @ delim @ ''Semester'') (Semester R)) = None"
    and "f TxnCommit = None"
  shows "db (Create f s R) =
    store_set (Id' R @ delim @ ''Semester'') (Semester R)
      (store_set (Id' R @ delim @ ''Name'') (Name R) s)"
  using assms by (simp add: Create_def db_Update_def put_txn_def txn_Set_def)

lemma db_Update_ok:
  assumes "f (TxnSet (Id' R @ delim @ ''Name'') (Name R)) = None"
    and "f (TxnSet (Id' R @ delim @ ''Semester'') (Semester R)) = None"
    and "f TxnCommit = None"
  shows "db (Update f s R) =
    store_set (Id' R @ delim @ ''Semester'') (Semester R)
      (store_set (Id' R @ delim @ ''Name'') (Name R) s)"
  using assms by (simp add: Update_def db_Update_def put_txn_def txn_Set_def)

lemma db_Update_cases:
  "db (Update f s R) = s \<or> db (Update f s R) =
    store_set (Id' R @ delim @ ''Semester'') (Semester R)
      (store_set (Id' R @ delim @ ''Name'') (Name R) s)"
  by (simp add: Update_def db_Update_def put_txn_def txn_Set_def split: option.splits)


lemma Get_name_missing:
  "map_of s (req_Id inp @ delim @ ''Name'') = None \<Longrightarrow>
   resp (Get f s inp) = \<lparr>Id' = req_Id inp, Name = [], Semester = []\<rparr>"
  by (simp add: Get_def Get_view_def txn_Get_def split: option.splits)

lemma Get_both_present:
  assumes "map_of s (req_Id inp @ delim @ ''Name'') = Some n"
    and "map_of s (req_Id inp @ delim @ ''Semester'') = Some sm"
    and "g (TxnGet (req_Id inp @ delim @ ''Name'')) = None"
    and "g (ItemValue (req_Id inp @ delim @ ''Name'')) = None"
    and "g (TxnGet (req_Id inp @ delim @ ''Semester'')) = None"
    and "g (ItemValue (req_Id inp @ delim @ ''Semester'')) = None"
  shows "resp (Get g s inp) = \<lparr>Id' = req_Id inp, Name = n, Semester = sm\<rparr>"
  using assms by (simp add: Get_def Get_view_def txn_Get_def item_Value_def)

lemma Get_semester_missing:
  assumes "map_of s (req_Id inp @ delim @ ''Name'') = Some n"
    and "map_of s (req_Id inp @ delim @ ''Semester'') = None"
    and "g (TxnGet (req_Id inp @ delim @ ''Name'')) = None"
    and "g (ItemValue (req_Id inp @ delim @ ''Name'')) = None"
  shows "resp (Get g s inp) = \<lparr>Id' = req_Id inp, Name = n, Semester = []\<rparr>"
  using assms
  by (simp add: Get_def Get_view_def txn_Get_def item_Value_def split: option.splits)

lemma Get_rpc_err: "rpc_err (Get g s inp) = None"
  by (simp add: Get_def split: prod.splits)

text \<open>
  C1, as the claim states it, fails: the engine refuses to write a key that begins with
  its reserved prefix, so Create of a record with such an id stores nothing, logs the
  error and returns the record; Get of that id then returns an empty name and semester.
\<close>

theorem Create_refused_counterexample:
  "db (Create badger_keys [] \<lparr>Id' = ''!badger!x'', Name = ''n'', Semester = ''s''\<rparr>) = []
   \<and> Id' (resp (Create badger_keys [] \<lparr>Id' = ''!badger!x'', Name = ''n'', Semester = ''s''\<rparr>))
       = ''!badger!x''
   \<and> resp (Get badger_keys
        (db (Create badger_keys [] \<lparr>Id' = ''!badger!x'', Name = ''n'', Semester = ''s''\<rparr>))
        \<lparr>req_Id = ''!badger!x'', req_Name = []\<rparr>)
      = \<lparr>Id' = ''!badger!x'', Name = [], Semester = []\<rparr>
   \<and> Name (resp (Get badger_keys
        (db (Create badger_keys [] \<lparr>Id' = ''!badger!x'', Name = ''n'', Semester = ''s''\<rparr>))
        \<lparr>req_Id = ''!badger!x'', req_Name = []\<rparr>))
      \<noteq> Name \<lparr>Id' = ''!badger!x'', Name = ''n'', Semester = ''s''\<rparr>"
  by (simp add: Create_def db_Update_def put_txn_def txn_Set_def badger_keys_def delim_def
      Get_def Get_view_def txn_Get_def)

text \<open>
  C1, amended. Create a record, then Get its id from the store that Create left, nothing
  else having written in between: when the engine performs the two writes and the commit
  of Create and the two reads of Get, the record returned has the name and the semester
  of the record created.
\<close>

theorem Create_then_Get:
  assumes "f (TxnSet (Id' R @ delim @ ''Name'') (Name R)) = None"
    and "f (TxnSet (Id' R @ delim @ ''Semester'') (Semester R)) = None"
    and "f TxnCommit = None"
    and "g (TxnGet (Id' R @ delim @ ''Name'')) = None"
    and "g (ItemValue (Id' R @ delim @ ''Name'')) = None"
    and "g (TxnGet (Id' R @ delim @ ''Semester'')) = None"
    and "g (ItemValue (Id' R @ delim @ ''Semester'')) = None"
    and "req_Id inp = Id' (resp (Create f s R))"
  shows "Name (resp (Get g (db (Create f s R)) inp)) = Name R
       \<and> Semester (resp (Get g (db (Create f s R)) inp)) = Semester R
       \<and> rpc_err (Get g (db (Create f s R)) inp) = None"
proof -
  let ?s' = "db (Create f s R)"
  have id: "req_Id inp = Id' R" using assms(8) by (simp add: Create_def split: prod.splits)
  have s': "?s' = store_set (Id' R @ delim @ ''Semester'') (Semester R)
                    (store_set (Id' R @ delim @ ''Name'') (Name R) s)"
    using assms(1-3) by (rule db_Create_ok)
  have n: "map_of ?s' (req_Id inp @ delim @ ''Name'') = Some (Name R)"
    by (simp add: s' id map_of_store_set_other map_of_store_set_same)
  have sm: "map_of ?s' (req_Id inp @ delim @ ''Semester'') = Some (Semester R)"
    by (simp add: s' id map_of_store_set_same)
  have "resp (Get g ?s' inp) = \<lparr>Id' = req_Id inp, Name = Name R, Semester = Semester R\<rparr>"
    using n sm assms(4-7) by (intro Get_both_present) (simp_all add: id)
  then show ?thesis by (simp add: Get_rpc_err)
qed

theorem Create_then_Get_witness:
  "healthy (TxnSet (''cs101'' @ delim @ ''Name'') ''Intro to CS'') = None
   \<and> healthy (TxnSet (''cs101'' @ delim @ ''Semester'') ''Fall2023'') = None
   \<and> healthy TxnCommit = None
   \<and> healthy (TxnGet (''cs101'' @ delim @ ''Name'')) = None
   \<and> healthy (ItemValue (''cs101'' @ delim @ ''Name'')) = None
   \<and> healthy (TxnGet (''cs101'' @ delim @ ''Semester'')) = None
   \<and> healthy (ItemValue (''cs101'' @ delim @ ''Semester'')) = None
   \<and> Id' (resp (Create healthy []
         \<lparr>Id' = ''cs101'', Name = ''Intro to CS'', Semester = ''Fall2023''\<rparr>)) = ''cs101''
   \<and> Name (resp (Get healthy
         (db (Create healthy [] \<lparr>Id' = ''cs101'', Name = ''Intro to CS'', Semester = ''Fall2023''\<rparr>))
         \<lparr>req_Id = ''cs101'', req_Name = []\<rparr>)) = ''Intro to CS''
   \<and> Semester (resp (Get healthy
         (db (Create healthy [] \<lparr>Id' = ''cs101'', Name = ''Intro to CS'', Semester = ''Fall2023''\<rparr>))
         \<lparr>req_Id = ''cs101'', req_Name = []\<rparr>)) = ''Fall2023''"
proof -
  let ?R = "\<lparr>Id' = ''cs101'', Name = ''Intro to CS'', Semester = ''Fall2023''\<rparr>"
  have e: "Id' (resp (Create healthy [] ?R)) = ''cs101''"
    by (simp add: Create_def split: prod.splits)
  have "Name (resp (Get healthy (db (Create healthy [] ?R)) \<lparr>req_Id = ''cs101'', req_Name = []\<rparr>))
          = Name ?R
      \<and> Semester (resp (Get healthy (db (Create healthy [] ?R)) \<lparr>req_Id = ''cs101'', req_Name = []\<rparr>))
          = Semester ?R
      \<and> rpc_err (Get healthy (db (Create healthy [] ?R)) \<lparr>req_Id = ''cs101'', req_Name = []\<rparr>) = None"
    by (rule Create_then_Get) (simp_all add: healthy_def Create_def split: prod.splits)
  then show ?thesis using e by (simp add: healthy_def)
qed



text \<open>
  C4, as the claim states it, fails: with the pair \<^verbatim>\<open>x.Name\<close> in the store and no pair
  \<^verbatim>\<open>x.Semester\<close>, the read transaction of Get ends with the error of the missing key and
  the record returned carries the stored name.
\<close>

theorem Get_partial_counterexample:
  "map_of [(''x.Name'', ''n'')] (''x'' @ delim @ ''Semester'') = None
   \<and> snd (Get_view healthy [(''x.Name'', ''n'')] \<lparr>req_Id = ''x'', req_Name = []\<rparr>
          \<lparr>Id' = ''x'', Name = [], Semester = []\<rparr>) = Some ErrKeyNotFound
   \<and> resp (Get healthy [(''x.Name'', ''n'')] \<lparr>req_Id = ''x'', req_Name = []\<rparr>)
       = \<lparr>Id' = ''x'', Name = ''n'', Semester = []\<rparr>
   \<and> Name (resp (Get healthy [(''x.Name'', ''n'')] \<lparr>req_Id = ''x'', req_Name = []\<rparr>)) \<noteq> []"
  by (simp add: Get_def Get_view_def txn_Get_def item_Value_def healthy_def delim_def)

text \<open>
  C4, amended. When the Name key is missing, the record returned has the requested id,
  an empty name and an empty semester. When the Name key is there and is read, and only
  the Semester key is missing, the record returned has the stored name and an empty
  semester.
\<close>

theorem Get_missing_key:
  "(map_of s (req_Id inp @ delim @ ''Name'') = None \<longrightarrow>
      resp (Get f s inp) = \<lparr>Id' = req_Id inp, Name = [], Semester = []\<rparr>)
   \<and> (map_of s (req_Id inp @ delim @ ''Name'') = Some n
      \<and> f (TxnGet (req_Id inp @ delim @ ''Name'')) = None
      \<and> f (ItemValue (req_Id inp @ delim @ ''Name'')) = None
      \<and> map_of s (req_Id inp @ delim @ ''Semester'') = None \<longrightarrow>
      resp (Get f s inp) = \<lparr>Id' = req_Id inp, Name = n, Semester = []\<rparr>)"
  using Get_name_missing[where s = s and inp = inp and f = f]
    Get_semester_missing[where s = s and inp = inp and n = n and g = f] by blast

theorem Get_missing_key_witness:
  "map_of [] (''x'' @ delim @ ''Name'') = None
   \<and> resp (Get healthy [] \<lparr>req_Id = ''x'', req_Name = []\<rparr>) = \<lparr>Id' = ''x'', Name = [], Semester = []\<rparr>
   \<and> map_of [(''x.Name'', ''n'')] (''x'' @ delim @ ''Name'') = Some ''n''
   \<and> healthy (TxnGet (''x'' @ delim @ ''Name'')) = None
   \<and> healthy (ItemValue (''x'' @ delim @ ''Name'')) = None
   \<and> map_of [(''x.Name'', ''n'')] (''x'' @ delim @ ''Semester'') = None
   \<and> resp (Get healthy [(''x.Name'', ''n'')] \<lparr>req_Id = ''x'', req_Name = []\<rparr>)
       = \<lparr>Id' = ''x'', Name = ''n'', Semester = []\<rparr>"
  using Get_missing_key[where s = "[]" and inp = "\<lparr>req_Id = ''x'', req_Name = []\<rparr>" and f = healthy]
    Get_missing_key[where s = "[(''x.Name'', ''n'')]" and inp = "\<lparr>req_Id = ''x'', req_Name = []\<rparr>"
      and n = "''n''" and f = healthy]
  by (simp add: healthy_def delim_def)

text \<open>
  C10. The record returned by Get has the requested id, for every request, every store
  and every behaviour of the engine.
\<close>

theorem Get_echoes_id: "Id' (resp (Get f s inp)) = req_Id inp"
  by (simp add: Get_def Get_view_def Let_def split: sum.splits prod.splits)

lemma txn_Set_reads_nothing:
  "txn_Set (f(TxnGet k := e, ItemValue k' := e')) key v txn = txn_Set f key v txn"
  by (simp add: txn_Set_def)

lemma put_txn_reads_nothing:
  "put_txn (f(TxnGet k := e, ItemValue k' := e')) inp = put_txn f inp"
  by (rule ext) (simp add: put_txn_def txn_Set_reads_nothing split: sum.splits)

lemma db_Update_reads_nothing:
  "db_Update (f(TxnGet k := e, ItemValue k' := e')) s fn = db_Update f s fn"
  by (simp add: db_Update_def split: sum.splits)

lemma Create_reads_nothing:
  "Create (f(TxnGet k := e, ItemValue k' := e')) s inp = Create f s inp"
  by (simp only: Create_def db_Update_reads_nothing put_txn_reads_nothing)

lemma Update_reads_nothing:
  "Update (f(TxnGet k := e, ItemValue k' := e')) s inp = Update f s inp"
  by (simp only: Update_def db_Update_reads_nothing put_txn_reads_nothing)

lemma map_of_put:
  "map_of (store_set (a @ delim @ ''Semester'') v2 (store_set (a @ delim @ ''Name'') v1 s))
      (a @ delim @ ''Name'') = Some v1
   \<and> map_of (store_set (a @ delim @ ''Semester'') v2 (store_set (a @ delim @ ''Name'') v1 s))
      (a @ delim @ ''Semester'') = Some v2"
  by (simp add: map_of_store_set_other map_of_store_set_same)

text \<open>
  C8. On the same record, the same store and the same behaviour of the engine, Update
  leaves the store that Create leaves and returns what Create returns: the record it was
  given and no error. Neither looks whether the record exists: what either does is the
  same whatever the engine would answer to a read, and when the engine performs the two
  writes and the commit, both pairs are written and hold the name and the semester given,
  whatever the store held before, the record or nothing.
\<close>

theorem Update_same_as_Create:
  "resp (Update f s inp) = resp (Create f s inp) \<and> resp (Create f s inp) = inp
   \<and> rpc_err (Update f s inp) = rpc_err (Create f s inp)
   \<and> db (Update f s inp) = db (Create f s inp)
   \<and> Create (f(TxnGet k := e, ItemValue k' := e')) s inp = Create f s inp
   \<and> Update (f(TxnGet k := e, ItemValue k' := e')) s inp = Update f s inp
   \<and> (f (TxnSet (Id' inp @ delim @ ''Name'') (Name inp)) = None
      \<and> f (TxnSet (Id' inp @ delim @ ''Semester'') (Semester inp)) = None
      \<and> f TxnCommit = None \<longrightarrow>
      db (Create f s inp) =
        store_set (Id' inp @ delim @ ''Semester'') (Semester inp)
          (store_set (Id' inp @ delim @ ''Name'') (Name inp) s)
      \<and> db (Update f s inp) =
        store_set (Id' inp @ delim @ ''Semester'') (Semester inp)
          (store_set (Id' inp @ delim @ ''Name'') (Name inp) s)
      \<and> map_of (db (Create f s inp)) (Id' inp @ delim @ ''Name'') = Some (Name inp)
      \<and> map_of (db (Create f s inp)) (Id' inp @ delim @ ''Semester'') = Some (Semester inp)
      \<and> map_of (db (Update f s inp)) (Id' inp @ delim @ ''Name'') = Some (Name inp)
      \<and> map_of (db (Update f s inp)) (Id' inp @ delim @ ''Semester'') = Some (Semester inp))"
proof -
  have same: "resp (Update f s inp) = resp (Create f s inp) \<and> resp (Create f s inp) = inp
     \<and> rpc_err (Update f s inp) = rpc_err (Create f s inp)
     \<and> db (Update f s inp) = db (Create f s inp)"
    by (simp add: Update_def Create_def split: prod.splits)
  have written: "db (Create f s inp) =
        store_set (Id' inp @ delim @ ''Semester'') (Semester inp)
          (store_set (Id' inp @ delim @ ''Name'') (Name inp) s)
      \<and> db (Update f s inp) =
        store_set (Id' inp @ delim @ ''Semester'') (Semester inp)
          (store_set (Id' inp @ delim @ ''Name'') (Name inp) s)
      \<and> map_of (db (Create f s inp)) (Id' inp @ delim @ ''Name'') = Some (Name inp)
      \<and> map_of (db (Create f s inp)) (Id' inp @ delim @ ''Semester'') = Some (Semester inp)
      \<and> map_of (db (Update f s inp)) (Id' inp @ delim @ ''Name'') = Some (Name inp)
      \<and> map_of (db (Update f s inp)) (Id' inp @ delim @ ''Semester'') = Some (Semester inp)"
    if "f (TxnSet (Id' inp @ delim @ ''Name'') (Name inp)) = None"
      and "f (TxnSet (Id' inp @ delim @ ''Semester'') (Semester inp)) = None"
      and "f TxnCommit = None"
    using db_Create_ok[OF that, of s] db_Update_ok[OF that, of s]
      map_of_put[of "Id' inp" "Semester inp" "Name inp" s]
    by simp
  from same have s1: "resp (Update f s inp) = resp (Create f s inp)"
    and s2: "resp (Create f s inp) = inp"
    and s3: "rpc_err (Update f s inp) = rpc_err (Create f s inp)"
    and s4: "db (Update f s inp) = db (Create f s inp)"
    by simp_all
  show ?thesis
    by (intro conjI impI s1 s2 s3 s4 Create_reads_nothing Update_reads_nothing)
      (simp_all add: written map_of_store_set_other map_of_store_set_same)
qed

theorem Update_same_as_Create_witness:
  "healthy (TxnSet (''a'' @ delim @ ''Name'') ''n'') = None
   \<and> healthy (TxnSet (''a'' @ delim @ ''Semester'') ''s'') = None
   \<and> healthy TxnCommit = None
   \<and> map_of [] (''a'' @ delim @ ''Name'') = None
   \<and> db (Update healthy [] \<lparr>Id' = ''a'', Name = ''n'', Semester = ''s''\<rparr>)
       = [(''a.Name'', ''n''), (''a.Semester'', ''s'')]
   \<and> map_of [(''a.Name'', ''old''), (''a.Semester'', ''then'')] (''a'' @ delim @ ''Name'') = Some ''old''
   \<and> db (Create healthy [(''a.Name'', ''old''), (''a.Semester'', ''then'')]
          \<lparr>Id' = ''a'', Name = ''n'', Semester = ''s''\<rparr>)
       = [(''a.Name'', ''n''), (''a.Semester'', ''s'')]"
  using Update_same_as_Create[where f = healthy and s = "[]"
      and inp = "\<lparr>Id' = ''a'', Name = ''n'', Semester = ''s''\<rparr>"]
    Update_same_as_Create[where f = healthy and s = "[(''a.Name'', ''old''), (''a.Semester'', ''then'')]"
      and inp = "\<lparr>Id' = ''a'', Name = ''n'', Semester = ''s''\<rparr>"]
  by (simp add: healthy_def delim_def)

lemma Update_after_commit:
  assumes "db (Update f s R) = store_set (Id' R @ delim @ ''Semester'') (Semester R)
                                 (store_set (Id' R @ delim @ ''Name'') (Name R) s)"
  shows "db (Update g (db (Update f s R)) R) = db (Update f s R)"
  using db_Update_cases[of g "db (Update f s R)" R] by (auto simp: assms put_twice)

lemma Update_same_faults: "db (Update f (db (Update f s R)) R) = db (Update f s R)"
  using db_Update_cases[of f s R]
proof
  assume "db (Update f s R) = s"
  then show ?thesis by simp
next
  assume "db (Update f s R) = store_set (Id' R @ delim @ ''Semester'') (Semester R)
                                 (store_set (Id' R @ delim @ ''Name'') (Name R) s)"
  then show ?thesis by (rule Update_after_commit)
qed

lemma Update_repeat: "((\<lambda>s. db (Update f s R)) ^^ Suc n) s = db (Update f s R)"
  by (induction n) (simp_all add: Update_same_faults)

lemma Updates_after_commit:
  assumes "db (Update f s R) = store_set (Id' R @ delim @ ''Semester'') (Semester R)
                                 (store_set (Id' R @ delim @ ''Name'') (Name R) s)"
  shows "foldl (\<lambda>s g. db (Update g s R)) (db (Update f s R)) gs = db (Update f s R)"
  by (induction gs) (simp_all add: Update_after_commit[OF assms])

text \<open>
  C9. Update with the same record, applied once more or any number of times more, leaves
  the store that one Update leaves: under one behaviour \<open>f\<close> of the engine for every
  call, and, once the writes of the first Update are committed, under any behaviour
  \<open>gs\<close> of the engine in the calls that follow.
\<close>

theorem Update_idempotent:
  "((\<lambda>s. db (Update f s R)) ^^ Suc n) s = db (Update f s R)
   \<and> (f (TxnSet (Id' R @ delim @ ''Name'') (Name R)) = None
      \<and> f (TxnSet (Id' R @ delim @ ''Semester'') (Semester R)) = None
      \<and> f TxnCommit = None \<longrightarrow>
      foldl (\<lambda>s g. db (Update g s R)) s (f # gs) = db (Update f s R))"
  using Update_repeat[where f = f and R = R and n = n and s = s]
    Updates_after_commit[OF db_Update_ok, where f = f and R = R and s = s and gs = gs]
  by simp

theorem Update_idempotent_witness:
  "healthy (TxnSet (''a'' @ delim @ ''Name'') ''n'') = None
   \<and> healthy (TxnSet (''a'' @ delim @ ''Semester'') ''s'') = None
   \<and> healthy TxnCommit = None
   \<and> ((\<lambda>s. db (Update healthy s \<lparr>Id' = ''a'', Name = ''n'', Semester = ''s''\<rparr>)) ^^ Suc 1) []
       = db (Update healthy [] \<lparr>Id' = ''a'', Name = ''n'', Semester = ''s''\<rparr>)
   \<and> foldl (\<lambda>s g. db (Update g s \<lparr>Id' = ''a'', Name = ''n'', Semester = ''s''\<rparr>)) []
        [healthy, healthy(TxnCommit := Some (Err ''conflict'')), healthy]
       = db (Update healthy [] \<lparr>Id' = ''a'', Name = ''n'', Semester = ''s''\<rparr>)"
  using Update_idempotent[where f = healthy and R = "\<lparr>Id' = ''a'', Name = ''n'', Semester = ''s''\<rparr>"
      and n = 1 and s = "[]" and gs = "[healthy(TxnCommit := Some (Err ''conflict'')), healthy]"]
  by (simp add: healthy_def)

section \<open>List\<close>

lemma classMap_ok_append:
  assumes "classMap_ok m cs" and "m i = None"
  shows "classMap_ok (m(i \<mapsto> length cs)) (cs @ [\<lparr>Id' = i, Name = [], Semester = []\<rparr>])"
  unfolding classMap_ok_def
proof (intro allI impI)
  fix j n
  assume h: "(m(i \<mapsto> length cs)) j = Some n"
  show "n < length (cs @ [\<lparr>Id' = i, Name = [], Semester = []\<rparr>])
        \<and> Id' ((cs @ [\<lparr>Id' = i, Name = [], Semester = []\<rparr>]) ! n) = j"
  proof (cases "j = i")
    case True
    with h have "n = length cs" by simp
    then show ?thesis using True by simp
  next
    case False
    with h have "m j = Some n" by simp
    with assms(1) have "n < length cs \<and> Id' (cs ! n) = j" by (simp add: classMap_ok_def)
    then show ?thesis by (simp add: nth_append)
  qed
qed

lemma classMap_ok_update:
  assumes "classMap_ok m cs" and "Id' c = Id' (cs ! n)"
  shows "classMap_ok m (cs[n := c])"
  unfolding classMap_ok_def
proof (intro allI impI)
  fix j k
  assume "m j = Some k"
  with assms(1) have "k < length cs" and "Id' (cs ! k) = j" by (simp_all add: classMap_ok_def)
  then show "k < length (cs[n := c]) \<and> Id' (cs[n := c] ! k) = j"
    using assms(2) by (cases "n = k") simp_all
qed

lemma map_Id_update: "Id' c = Id' (cs ! n) \<Longrightarrow> map Id' (cs[n := c]) = map Id' cs"
  by (cases "n < length cs") (simp_all add: map_update list_update_same_conv list_update_beyond)

lemma fields_from_update:
  assumes "fields_from S cs" and "n < length cs"
    and "Name c = [] \<or> (Id' c @ delim @ ''Name'', Name c) \<in> S"
    and "Semester c = [] \<or> (Id' c @ delim @ ''Semester'', Semester c) \<in> S"
  shows "fields_from S (cs[n := c])"
  using assms by (auto simp: fields_from_def dest!: set_update_subset_insert[THEN subsetD])

lemma fields_from_nth: "fields_from S cs \<Longrightarrow> n < length cs \<Longrightarrow>
  (Name (cs ! n) = [] \<or> (Id' (cs ! n) @ delim @ ''Name'', Name (cs ! n)) \<in> S)
  \<and> (Semester (cs ! n) = [] \<or> (Id' (cs ! n) @ delim @ ''Semester'', Semester (cs ! n)) \<in> S)"
  by (simp add: fields_from_def)

lemma List_body_unfold:
  assumes inv: "classMap_ok m cs" and sk: "split_key (fst item) = Inr (i, p)"
  obtains n m' cs' where "classMap_ok m' cs'" and "m' i = Some n"
    and "cs' = cs \<or> cs' = cs @ [\<lparr>Id' = i, Name = [], Semester = []\<rparr>]"
    and "List_body f m cs item =
      (case f (ItemValue (fst item)) of
         Some e \<Rightarrow> Inr (m', cs', Some e)
       | None \<Rightarrow> Inr (m', if p = ''Name'' then cs'[n := (cs' ! n)\<lparr>Name := snd item\<rparr>]
                        else if p = ''Semester'' then cs'[n := (cs' ! n)\<lparr>Semester := snd item\<rparr>]
                        else cs', None))"
proof (cases "m i")
  case None
  let ?cs = "cs @ [\<lparr>Id' = i, Name = [], Semester = []\<rparr>]"
  let ?m = "m(i \<mapsto> length cs)"
  have "classMap_ok ?m ?cs" using inv None by (rule classMap_ok_append)
  moreover have "?m i = Some (length cs)" by simp
  moreover have "List_body f m cs item =
      (case f (ItemValue (fst item)) of
         Some e \<Rightarrow> Inr (?m, ?cs, Some e)
       | None \<Rightarrow> Inr (?m, if p = ''Name'' then ?cs[length cs := (?cs ! length cs)\<lparr>Name := snd item\<rparr>]
                        else if p = ''Semester'' then ?cs[length cs := (?cs ! length cs)\<lparr>Semester := snd item\<rparr>]
                        else ?cs, None))"
    by (simp add: List_body_def sk None item_Value_def split: option.splits)
  ultimately show ?thesis using that[of ?m ?cs "length cs"] by blast
next
  case (Some n)
  with inv have n: "n < length cs" by (simp add: classMap_ok_def)
  have "List_body f m cs item =
      (case f (ItemValue (fst item)) of
         Some e \<Rightarrow> Inr (m, cs, Some e)
       | None \<Rightarrow> Inr (m, if p = ''Name'' then cs[n := (cs ! n)\<lparr>Name := snd item\<rparr>]
                        else if p = ''Semester'' then cs[n := (cs ! n)\<lparr>Semester := snd item\<rparr>]
                        else cs, None))"
    by (simp add: List_body_def sk Some n item_Value_def split: option.splits)
  then show ?thesis using that[of m cs n] inv Some by blast
qed

lemma List_body_ok:
  assumes inv: "classMap_ok m cs" and sk: "split_key (fst item) = Inr (i, p)"
  shows "\<exists>m' cs' e. List_body f m cs item = Inr (m', cs', e) \<and> classMap_ok m' cs'
          \<and> set (map Id' cs) \<subseteq> set (map Id' cs') \<and> i \<in> set (map Id' cs')
          \<and> (fields_from S cs \<and> item \<in> S \<longrightarrow> fields_from S cs')"
proof -
  obtain n m' cs' where inv': "classMap_ok m' cs'" and mi: "m' i = Some n"
    and cs': "cs' = cs \<or> cs' = cs @ [\<lparr>Id' = i, Name = [], Semester = []\<rparr>]"
    and body: "List_body f m cs item =
      (case f (ItemValue (fst item)) of
         Some e \<Rightarrow> Inr (m', cs', Some e)
       | None \<Rightarrow> Inr (m', if p = ''Name'' then cs'[n := (cs' ! n)\<lparr>Name := snd item\<rparr>]
                        else if p = ''Semester'' then cs'[n := (cs' ! n)\<lparr>Semester := snd item\<rparr>]
                        else cs', None))"
    using List_body_unfold[OF inv sk, of f] by blast
  from inv' mi have n: "n < length cs'" and idn: "Id' (cs' ! n) = i"
    by (simp_all add: classMap_ok_def)
  have sub: "set (map Id' cs) \<subseteq> set (map Id' cs')" using cs' by auto
  have mem: "i \<in> set (map Id' cs')" using n idn by (metis length_map nth_map nth_mem)
  have ff: "fields_from S cs \<Longrightarrow> fields_from S cs'"
    using cs' by (auto simp: fields_from_def)
  have key: "fst item = i @ delim @ p" using sk by (rule split_key_decode)
  let ?cN = "(cs' ! n)\<lparr>Name := snd item\<rparr>" and ?cS = "(cs' ! n)\<lparr>Semester := snd item\<rparr>"
  have okN: "classMap_ok m' (cs'[n := ?cN])" and okS: "classMap_ok m' (cs'[n := ?cS])"
    using inv' by (simp_all add: classMap_ok_update)
  have idN: "map Id' (cs'[n := ?cN]) = map Id' cs'" and idS: "map Id' (cs'[n := ?cS]) = map Id' cs'"
    by (simp_all add: map_Id_update)
  have subN: "set (map Id' cs) \<subseteq> set (map Id' (cs'[n := ?cN]))"
    and memN: "i \<in> set (map Id' (cs'[n := ?cN]))"
    and subS: "set (map Id' cs) \<subseteq> set (map Id' (cs'[n := ?cS]))"
    and memS: "i \<in> set (map Id' (cs'[n := ?cS]))"
    using sub mem by (simp_all only: idN idS)
  have ffN: "fields_from S (cs'[n := ?cN])" if "fields_from S cs" "item \<in> S" "p = ''Name''"
  proof -
    have "(Id' ?cN @ delim @ ''Name'', Name ?cN) \<in> S"
      using that key idn by (cases item) simp
    then show ?thesis
      using fields_from_nth[OF ff[OF that(1)] n] by (intro fields_from_update ff that n) auto
  qed
  have ffS: "fields_from S (cs'[n := ?cS])" if "fields_from S cs" "item \<in> S" "p = ''Semester''"
  proof -
    have "(Id' ?cS @ delim @ ''Semester'', Semester ?cS) \<in> S"
      using that key idn by (cases item) simp
    then show ?thesis
      using fields_from_nth[OF ff[OF that(1)] n] by (intro fields_from_update ff that n) auto
  qed
  show ?thesis
  proof (cases "f (ItemValue (fst item))")
    case (Some e)
    then show ?thesis using body inv' sub mem ff by auto
  next
    case None
    consider "p = ''Name''" | "p = ''Semester''" | "p \<noteq> ''Name''" "p \<noteq> ''Semester''" by blast
    then show ?thesis
    proof cases
      case 1
      then show ?thesis using body None okN subN memN ffN by auto
    next
      case 2
      then show ?thesis using body None okS subS memS ffS by auto
    next
      case 3
      then show ?thesis using body None inv' sub mem ff by auto
    qed
  qed
qed


lemma List_loop_ok:
  assumes "classMap_ok m cs" and "keys_delimited it"
  shows "\<exists>cs' e. List_loop f m cs it = Inr (cs', e)
          \<and> set (map Id' cs) \<subseteq> set (map Id' cs')
          \<and> (fields_from S cs \<and> set it \<subseteq> S \<longrightarrow> fields_from S cs')
          \<and> (e = None \<longrightarrow> (\<forall>item \<in> set it. \<forall>i p. split_key (fst item) = Inr (i, p) \<longrightarrow> i \<in> set (map Id' cs')))"
  using assms
proof (induction it arbitrary: m cs)
  case Nil
  then show ?case by simp
next
  case (Cons item it)
  from Cons.prems(2) obtain i p where sk: "split_key (fst item) = Inr (i, p)"
    using split_key_ok[of "fst item"] by (auto simp: keys_delimited_def)
  from Cons.prems(2) have kd: "keys_delimited it" by (simp add: keys_delimited_def)
  obtain m' cs' e where body: "List_body f m cs item = Inr (m', cs', e)"
    and inv': "classMap_ok m' cs'"
    and sub: "set (map Id' cs) \<subseteq> set (map Id' cs')" and mem: "i \<in> set (map Id' cs')"
    and ff: "fields_from S cs \<and> item \<in> S \<longrightarrow> fields_from S cs'"
    using List_body_ok[OF Cons.prems(1) sk, of f S] by blast
  show ?case
  proof (cases e)
    case (Some err)
    then show ?thesis using body sub ff by simp
  next
    case None
    obtain cs'' e' where loop: "List_loop f m' cs' it = Inr (cs'', e')"
      and sub': "set (map Id' cs') \<subseteq> set (map Id' cs'')"
      and ff': "fields_from S cs' \<and> set it \<subseteq> S \<longrightarrow> fields_from S cs''"
      and all: "e' = None \<longrightarrow> (\<forall>item \<in> set it. \<forall>i p. split_key (fst item) = Inr (i, p) \<longrightarrow> i \<in> set (map Id' cs''))"
      using Cons.IH[OF inv' kd] by blast
    have "List_loop f m cs (item # it) = Inr (cs'', e')"
      using body None loop by simp
    moreover have "set (map Id' cs) \<subseteq> set (map Id' cs'')" using sub sub' by blast
    moreover have "fields_from S cs \<and> set (item # it) \<subseteq> S \<longrightarrow> fields_from S cs''"
      using ff ff' by simp
    moreover have "e' = None \<longrightarrow> (\<forall>x \<in> set (item # it). \<forall>j q. split_key (fst x) = Inr (j, q) \<longrightarrow> j \<in> set (map Id' cs''))"
      using all sk mem sub' by auto
    ultimately show ?thesis by blast
  qed
qed

lemma classMap_ok_empty: "classMap_ok Map.empty []"
  by (simp add: classMap_ok_def)

lemma fields_from_empty: "fields_from S []"
  by (simp add: fields_from_def)

lemma List_body_err:
  "List_body f m cs item = Inr (m', cs', Some err) \<Longrightarrow> f (ItemValue (fst item)) = Some err"
  by (auto simp: List_body_def item_Value_def Let_def
      split: sum.splits option.splits prod.splits if_splits)

lemma List_loop_err:
  "List_loop f m cs it = Inr (cs', Some err) \<Longrightarrow> \<exists>item \<in> set it. f (ItemValue (fst item)) = Some err"
proof (induction it arbitrary: m cs)
  case Nil
  then show ?case by simp
next
  case (Cons item it)
  then show ?case
    by (auto split: sum.splits prod.splits option.splits dest: List_body_err)
qed

lemma List_ok:
  assumes "keys_delimited s"
  shows "\<exists>r. List f s = Inr r \<and> rpc_err r = None \<and> db r = s \<and> fields_from (set s) (resp r)
     \<and> ((\<forall>k \<in> fst ` set s. f (ItemValue k) = None) \<longrightarrow>
          (\<forall>item \<in> set s. \<forall>i p. split_key (fst item) = Inr (i, p) \<longrightarrow> i \<in> set (map Id' (resp r))))"
proof -
  obtain cs' e where loop: "List_loop f Map.empty [] s = Inr (cs', e)"
    and ff: "fields_from (set s) cs'"
    and all: "e = None \<longrightarrow> (\<forall>item \<in> set s. \<forall>i p. split_key (fst item) = Inr (i, p) \<longrightarrow> i \<in> set (map Id' cs'))"
    using List_loop_ok[OF classMap_ok_empty assms, of f "set s"] fields_from_empty by blast
  have "e = None" if "\<forall>k \<in> fst ` set s. f (ItemValue k) = None"
  proof (cases e)
    case None
    then show ?thesis .
  next
    case (Some err)
    with loop List_loop_err[of f Map.empty "[]" s cs' err] that show ?thesis by auto
  qed
  with loop ff all show ?thesis by (auto simp: List_def)
qed

lemma List_body_unrecognized:
  assumes "split_key k = Inr (i, p)" and "p \<noteq> ''Name''" and "p \<noteq> ''Semester''"
  shows "List_body f m cs (k, v) = List_body f m cs (k, v')"
  using assms by (simp add: List_body_def item_Value_def split: option.splits)

lemma List_loop_unrecognized:
  assumes "split_key k = Inr (i, p)" and "p \<noteq> ''Name''" and "p \<noteq> ''Semester''"
  shows "List_loop f m cs (s1 @ (k, v) # s2) = List_loop f m cs (s1 @ (k, v') # s2)"
proof (induction s1 arbitrary: m cs)
  case Nil
  show ?case using List_body_unrecognized[OF assms, of f m cs v v'] by simp
next
  case (Cons item s1)
  show ?case by (simp add: Cons.IH split: sum.splits prod.splits option.splits)
qed

lemma List_unrecognized:
  assumes "split_key k = Inr (i, p)" and "p \<noteq> ''Name''" and "p \<noteq> ''Semester''"
    and "List f (s1 @ (k, v) # s2) = Inr r"
  shows "\<exists>r'. List f (s1 @ (k, v') # s2) = Inr r' \<and> resp r' = resp r"
  using assms(4) List_loop_unrecognized[OF assms(1-3), of f Map.empty "[]" s1 v s2 v']
  by (auto simp: List_def split: sum.splits prod.splits)

lemma keys_delimited_store_set:
  "keys_delimited s \<Longrightarrow> CHR ''.'' \<in> set k \<Longrightarrow> keys_delimited (store_set k v s)"
  using set_store_set[of k v s] by (fastforce simp: keys_delimited_def)

lemma keys_delimited_store_delete: "keys_delimited s \<Longrightarrow> keys_delimited (store_delete k s)"
  using set_store_delete[of k s] by (fastforce simp: keys_delimited_def)

lemma db_Create_cases:
  "db (Create f s R) = s \<or> db (Create f s R) =
    store_set (Id' R @ delim @ ''Semester'') (Semester R)
      (store_set (Id' R @ delim @ ''Name'') (Name R) s)"
  by (simp add: Create_def db_Update_def put_txn_def txn_Set_def split: option.splits)

lemma db_Delete_cases:
  "db (Delete f s R) = s \<or> db (Delete f s R) =
    store_delete (Id' R @ ''.Semester'') (store_delete (Id' R @ ''.Name'') s)"
  by (simp add: Delete_def db_Update_def delete_txn_def txn_Delete_def split: option.splits)

lemma keys_delimited_Create: "keys_delimited s \<Longrightarrow> keys_delimited (db (Create f s R))"
  using db_Create_cases[of f s R] by (auto simp: delim_def intro!: keys_delimited_store_set)

lemma keys_delimited_Update: "keys_delimited s \<Longrightarrow> keys_delimited (db (Update f s R))"
  using db_Update_cases[of f s R] by (auto simp: delim_def intro!: keys_delimited_store_set)

lemma keys_delimited_Delete: "keys_delimited s \<Longrightarrow> keys_delimited (db (Delete f s R))"
  using db_Delete_cases[of f s R] by (auto intro!: keys_delimited_store_delete)

lemma Get_logs_not_found:
  assumes "map_of s (req_Id inp @ delim @ ''Name'') = None"
    and "f (TxnGet (req_Id inp @ delim @ ''Name'')) = None"
  shows "logged (Get f s inp) =
     [''Get called for Id '' @ req_Id inp,
      ''Error reading '' @ req_Name inp @ '' from class database: Key not found'']"
  using assms by (simp add: Get_def Get_view_def txn_Get_def)

lemma Create_commit_fails:
  assumes "f (TxnSet (Id' R @ delim @ ''Name'') (Name R)) = None"
    and "f (TxnSet (Id' R @ delim @ ''Semester'') (Semester R)) = None"
    and "f TxnCommit = Some e"
  shows "db (Create f s R) = s \<and> resp (Create f s R) = R
     \<and> logged (Create f s R) =
       [''Create called for Id '' @ Id' R,
        ''Error saving '' @ Name R @ '' to class database: '' @ Error e,
        ''Added '' @ Name R @ '' to class database'']"
  using assms by (simp add: Create_def db_Update_def put_txn_def txn_Set_def)

text \<open>
  C2, as the claim states it, fails: on a store with a key that has no separator, List
  does not return. \<^verbatim>\<open>strings.LastIndex\<close> gives -1 and the slice \<^verbatim>\<open>k[:lastIndex]\<close>
  panics.
\<close>

theorem List_panic_counterexample:
  "List healthy [(''x'', ''v'')] = Inl SliceBoundsOutOfRange"
  by (simp add: List_def List_body_def split_key_def)

text \<open>
  C2, amended. Whatever the engine does, List returns no error on every store whose keys
  all contain the separator, and Get, Create, Update and Delete return no error on every
  store. The empty store has such keys, and Create, Update and Delete keep them so: every
  store the service builds is one. An error inside is logged and not returned: Get on a
  missing Name key logs the error of the engine; Create whose commit fails logs the error,
  leaves the store as it was and returns the record it was given.
\<close>

theorem rpc_never_errors:
  "(keys_delimited s \<longrightarrow> (\<exists>r. List f s = Inr r \<and> rpc_err r = None))
   \<and> rpc_err (Get f s inp) = None
   \<and> rpc_err (Create f s R) = None
   \<and> rpc_err (Update f s R) = None
   \<and> rpc_err (Delete f s R) = None
   \<and> keys_delimited []
   \<and> (keys_delimited s \<longrightarrow> keys_delimited (db (Create f s R))
         \<and> keys_delimited (db (Update f s R)) \<and> keys_delimited (db (Delete f s R)))
   \<and> (map_of s (req_Id inp @ delim @ ''Name'') = None
       \<and> f (TxnGet (req_Id inp @ delim @ ''Name'')) = None \<longrightarrow>
       logged (Get f s inp) =
         [''Get called for Id '' @ req_Id inp,
          ''Error reading '' @ req_Name inp @ '' from class database: Key not found''])
   \<and> (f (TxnSet (Id' R @ delim @ ''Name'') (Name R)) = None
       \<and> f (TxnSet (Id' R @ delim @ ''Semester'') (Semester R)) = None
       \<and> f TxnCommit = Some e \<longrightarrow>
       db (Create f s R) = s \<and> resp (Create f s R) = R
       \<and> logged (Create f s R) =
         [''Create called for Id '' @ Id' R,
          ''Error saving '' @ Name R @ '' to class database: '' @ Error e,
          ''Added '' @ Name R @ '' to class database''])"
proof -
  have 1: "keys_delimited s \<longrightarrow> (\<exists>r. List f s = Inr r \<and> rpc_err r = None)"
    using List_ok[of s f] by blast
  have 2: "rpc_err (Get f s inp) = None" by (rule Get_rpc_err)
  have 3: "rpc_err (Create f s R) = None" by (simp add: Create_def split: prod.splits)
  have 4: "rpc_err (Update f s R) = None" by (simp add: Update_def split: prod.splits)
  have 5: "rpc_err (Delete f s R) = None" by (simp add: Delete_def split: prod.splits)
  have 6: "keys_delimited []" by (simp add: keys_delimited_def)
  show ?thesis
    using 1 2 3 4 5 6 keys_delimited_Create[of s f R] keys_delimited_Update[of s f R]
      keys_delimited_Delete[of s f R] Get_logs_not_found[of s inp f] Create_commit_fails[of f R e s]
    by blast
qed

theorem rpc_never_errors_witness:
  "keys_delimited [(''a.Name'', ''n'')]
   \<and> (\<exists>r. List (healthy(TxnCommit := Some (Err ''conflict''))) [(''a.Name'', ''n'')] = Inr r
          \<and> rpc_err r = None)
   \<and> map_of [(''a.Name'', ''n'')] (''b'' @ delim @ ''Name'') = None
   \<and> (healthy(TxnCommit := Some (Err ''conflict''))) (TxnGet (''b'' @ delim @ ''Name'')) = None
   \<and> logged (Get (healthy(TxnCommit := Some (Err ''conflict''))) [(''a.Name'', ''n'')]
         \<lparr>req_Id = ''b'', req_Name = ''B''\<rparr>)
       = [''Get called for Id b'', ''Error reading B from class database: Key not found'']
   \<and> (healthy(TxnCommit := Some (Err ''conflict''))) (TxnSet (''c'' @ delim @ ''Name'') ''C'') = None
   \<and> (healthy(TxnCommit := Some (Err ''conflict''))) (TxnSet (''c'' @ delim @ ''Semester'') ''S'') = None
   \<and> (healthy(TxnCommit := Some (Err ''conflict''))) TxnCommit = Some (Err ''conflict'')
   \<and> db (Create (healthy(TxnCommit := Some (Err ''conflict''))) [(''a.Name'', ''n'')]
         \<lparr>Id' = ''c'', Name = ''C'', Semester = ''S''\<rparr>) = [(''a.Name'', ''n'')]
   \<and> rpc_err (Create (healthy(TxnCommit := Some (Err ''conflict''))) [(''a.Name'', ''n'')]
         \<lparr>Id' = ''c'', Name = ''C'', Semester = ''S''\<rparr>) = None
   \<and> logged (Create (healthy(TxnCommit := Some (Err ''conflict''))) [(''a.Name'', ''n'')]
         \<lparr>Id' = ''c'', Name = ''C'', Semester = ''S''\<rparr>)
       = [''Create called for Id c'', ''Error saving C to class database: conflict'',
          ''Added C to class database'']"
  using rpc_never_errors[where s = "[(''a.Name'', ''n'')]"
      and f = "healthy(TxnCommit := Some (Err ''conflict''))"
      and inp = "\<lparr>req_Id = ''b'', req_Name = ''B''\<rparr>"
      and R = "\<lparr>Id' = ''c'', Name = ''C'', Semester = ''S''\<rparr>" and e = "Err ''conflict''"]
  by (simp add: keys_delimited_def healthy_def delim_def)

text \<open>
  C6, as the claim states it, fails: a store may hold, beside the pair with the
  unrecognized field name, a key without the separator, and there List panics instead
  of returning.
\<close>

theorem List_other_key_counterexample:
  "split_key ''a.Other'' = Inr (''a'', ''Other'')
   \<and> List healthy [(''a.Other'', ''o''), (''b'', ''v'')] = Inl SliceBoundsOutOfRange"
  by (simp add: List_def List_body_def split_key_def item_Value_def healthy_def)

text \<open>
  C6, amended. Let the store, all of whose keys contain the separator, hold a pair with the key
  \<open>i.p\<close> where \<open>p\<close> is a field name other than \<^verbatim>\<open>Name\<close> and \<^verbatim>\<open>Semester\<close>.
  List returns, with no error. The value of the pair is assigned to no field: with any
  other value in its place List returns the same classes, and every name and semester
  returned is empty or the value stored under the key of that id and that field. When
  the values of the scan are read without error, a class with the id \<open>i\<close> is returned;
  when the store has neither \<open>i.Name\<close> nor \<open>i.Semester\<close>, its name and semester are
  empty.
\<close>

theorem List_unknown_field:
  assumes "s = s1 @ (i @ delim @ p, v) # s2" and "keys_delimited s"
    and "CHR ''.'' \<notin> set p" and "p \<noteq> ''Name''" and "p \<noteq> ''Semester''"
  shows "\<exists>r. List f s = Inr r \<and> rpc_err r = None
      \<and> (\<forall>v'. \<exists>r'. List f (s1 @ (i @ delim @ p, v') # s2) = Inr r' \<and> resp r' = resp r)
      \<and> fields_from (set s) (resp r)
      \<and> ((\<forall>k \<in> fst ` set s. f (ItemValue k) = None) \<longrightarrow>
           (\<exists>c \<in> set (resp r). Id' c = i)
           \<and> (i @ delim @ ''Name'' \<notin> fst ` set s \<and> i @ delim @ ''Semester'' \<notin> fst ` set s \<longrightarrow>
                (\<forall>c \<in> set (resp r). Id' c = i \<longrightarrow> Name c = [] \<and> Semester c = [])))"
proof -
  have sk: "split_key (i @ delim @ p) = Inr (i, p)"
    using assms(3) by (rule split_key_encode)
  from List_ok[OF assms(2), of f] obtain r where
    "List f s = Inr r \<and> rpc_err r = None \<and> db r = s \<and> fields_from (set s) (resp r)
     \<and> ((\<forall>k \<in> fst ` set s. f (ItemValue k) = None) \<longrightarrow>
          (\<forall>item \<in> set s. \<forall>i p. split_key (fst item) = Inr (i, p) \<longrightarrow> i \<in> set (map Id' (resp r))))" ..
  then have r: "List f s = Inr r" and err: "rpc_err r = None"
    and ff: "fields_from (set s) (resp r)"
    and all: "(\<forall>k \<in> fst ` set s. f (ItemValue k) = None) \<longrightarrow>
          (\<forall>item \<in> set s. \<forall>i p. split_key (fst item) = Inr (i, p) \<longrightarrow> i \<in> set (map Id' (resp r)))"
    by simp_all
  have indep: "\<forall>v'. \<exists>r'. List f (s1 @ (i @ delim @ p, v') # s2) = Inr r' \<and> resp r' = resp r"
    using List_unrecognized[OF sk assms(4,5), of f s1 v s2 r] r assms(1) by simp
  have emitted: "\<exists>c \<in> set (resp r). Id' c = i" if "\<forall>k \<in> fst ` set s. f (ItemValue k) = None"
  proof -
    have "(i @ delim @ p, v) \<in> set s" by (simp add: assms(1))
    with all that sk have "i \<in> set (map Id' (resp r))" by fastforce
    then show ?thesis by auto
  qed
  have empty: "Name c = [] \<and> Semester c = []"
    if "i @ delim @ ''Name'' \<notin> fst ` set s" "i @ delim @ ''Semester'' \<notin> fst ` set s"
      "c \<in> set (resp r)" "Id' c = i" for c
  proof -
    from ff that(3) have "(Name c = [] \<or> (Id' c @ delim @ ''Name'', Name c) \<in> set s)
        \<and> (Semester c = [] \<or> (Id' c @ delim @ ''Semester'', Semester c) \<in> set s)"
      by (simp add: fields_from_def)
    with that(1,2,4) show ?thesis by (metis fst_conv image_eqI)
  qed
  have last: "(\<forall>k \<in> fst ` set s. f (ItemValue k) = None) \<longrightarrow>
           (\<exists>c \<in> set (resp r). Id' c = i)
           \<and> (i @ delim @ ''Name'' \<notin> fst ` set s \<and> i @ delim @ ''Semester'' \<notin> fst ` set s \<longrightarrow>
                (\<forall>c \<in> set (resp r). Id' c = i \<longrightarrow> Name c = [] \<and> Semester c = []))"
    using emitted empty by auto
  show ?thesis
    by (rule exI[of _ r]) (intro conjI r err indep ff last)
qed

theorem List_unknown_field_witness:
  "[(''a.Name'', ''n''), (''b.Other'', ''o'')] = [(''a.Name'', ''n'')] @ (''b'' @ delim @ ''Other'', ''o'') # []
   \<and> keys_delimited [(''a.Name'', ''n''), (''b.Other'', ''o'')]
   \<and> CHR ''.'' \<notin> set ''Other'' \<and> ''Other'' \<noteq> ''Name'' \<and> ''Other'' \<noteq> ''Semester''
   \<and> healthy (ItemValue ''a.Name'') = None \<and> healthy (ItemValue ''b.Other'') = None
   \<and> ''b'' @ delim @ ''Name'' \<notin> fst ` set [(''a.Name'', ''n''), (''b.Other'', ''o'')]
   \<and> ''b'' @ delim @ ''Semester'' \<notin> fst ` set [(''a.Name'', ''n''), (''b.Other'', ''o'')]
   \<and> (\<exists>r. List healthy [(''a.Name'', ''n''), (''b.Other'', ''o'')] = Inr r \<and> rpc_err r = None
         \<and> (\<exists>r'. List healthy [(''a.Name'', ''n''), (''b.Other'', ''zzz'')] = Inr r' \<and> resp r' = resp r)
         \<and> (\<exists>c \<in> set (resp r). Id' c = ''b'' \<and> Name c = [] \<and> Semester c = []))"
proof -
  let ?s = "[(''a.Name'', ''n''), (''b.Other'', ''o'')]"
  have h1: "?s = [(''a.Name'', ''n'')] @ (''b'' @ delim @ ''Other'', ''o'') # []"
    by (simp add: delim_def)
  have h2: "keys_delimited ?s" by (simp add: keys_delimited_def)
  have h3: "CHR ''.'' \<notin> set ''Other''" and h4: "''Other'' \<noteq> ''Name''"
    and h5: "''Other'' \<noteq> ''Semester''" by simp_all
  have h6: "\<forall>k \<in> fst ` set ?s. healthy (ItemValue k) = None" by (simp add: healthy_def)
  have h7: "''b'' @ delim @ ''Name'' \<notin> fst ` set ?s" and h8: "''b'' @ delim @ ''Semester'' \<notin> fst ` set ?s"
    by (simp_all add: delim_def)
  from List_unknown_field[OF h1 h2 h3 h4 h5, of healthy] obtain r where
    r: "List healthy ?s = Inr r \<and> rpc_err r = None
      \<and> (\<forall>v'. \<exists>r'. List healthy ([(''a.Name'', ''n'')] @ (''b'' @ delim @ ''Other'', v') # []) = Inr r'
              \<and> resp r' = resp r)
      \<and> fields_from (set ?s) (resp r)
      \<and> ((\<forall>k \<in> fst ` set ?s. healthy (ItemValue k) = None) \<longrightarrow>
           (\<exists>c \<in> set (resp r). Id' c = ''b'')
           \<and> (''b'' @ delim @ ''Name'' \<notin> fst ` set ?s \<and> ''b'' @ delim @ ''Semester'' \<notin> fst ` set ?s \<longrightarrow>
                (\<forall>c \<in> set (resp r). Id' c = ''b'' \<longrightarrow> Name c = [] \<and> Semester c = [])))" ..
  from r h6 h7 h8 have c: "\<exists>c \<in> set (resp r). Id' c = ''b'' \<and> Name c = [] \<and> Semester c = []"
    by blast
  from r have "\<exists>r'. List healthy ([(''a.Name'', ''n'')] @ (''b'' @ delim @ ''Other'', ''zzz'') # []) = Inr r'
              \<and> resp r' = resp r" by blast
  then have v: "\<exists>r'. List healthy [(''a.Name'', ''n''), (''b.Other'', ''zzz'')] = Inr r' \<and> resp r' = resp r"
    by (simp add: delim_def)
  have "\<exists>r. List healthy ?s = Inr r \<and> rpc_err r = None
         \<and> (\<exists>r'. List healthy [(''a.Name'', ''n''), (''b.Other'', ''zzz'')] = Inr r' \<and> resp r' = resp r)
         \<and> (\<exists>c \<in> set (resp r). Id' c = ''b'' \<and> Name c = [] \<and> Semester c = [])"
    using r v c by (intro exI[of _ r]) simp
  then show ?thesis using h2 by (simp add: healthy_def delim_def)
qed

text \<open>
  C7. Create the records with the ids \<^verbatim>\<open>a\<close>, \<^verbatim>\<open>b\<close> and \<^verbatim>\<open>c\<close> on the empty store
  of an engine that performs every call, with any names and semesters; then List returns
  exactly these three records, each id once, each with the name and semester it was
  created with.
\<close>

theorem List_after_three_creates:
  "\<exists>r. List healthy
      (db (Create healthy
        (db (Create healthy
          (db (Create healthy [] \<lparr>Id' = ''a'', Name = na, Semester = sa\<rparr>))
          \<lparr>Id' = ''b'', Name = nb, Semester = sb\<rparr>))
        \<lparr>Id' = ''c'', Name = nc, Semester = sc\<rparr>)) = Inr r
     \<and> rpc_err r = None
     \<and> resp r = [\<lparr>Id' = ''a'', Name = na, Semester = sa\<rparr>,
                 \<lparr>Id' = ''b'', Name = nb, Semester = sb\<rparr>,
                 \<lparr>Id' = ''c'', Name = nc, Semester = sc\<rparr>]
     \<and> length (resp r) = 3
     \<and> set (map Id' (resp r)) = {''a'', ''b'', ''c''}
     \<and> distinct (map Id' (resp r))"
proof -
  have "db (Create healthy
        (db (Create healthy
          (db (Create healthy [] \<lparr>Id' = ''a'', Name = na, Semester = sa\<rparr>))
          \<lparr>Id' = ''b'', Name = nb, Semester = sb\<rparr>))
        \<lparr>Id' = ''c'', Name = nc, Semester = sc\<rparr>)
      = [(''a.Name'', na), (''a.Semester'', sa), (''b.Name'', nb), (''b.Semester'', sb),
         (''c.Name'', nc), (''c.Semester'', sc)]"
    by (simp add: Create_def db_Update_def put_txn_def txn_Set_def healthy_def delim_def)
  moreover have "List healthy [(''a.Name'', na), (''a.Semester'', sa), (''b.Name'', nb),
        (''b.Semester'', sb), (''c.Name'', nc), (''c.Semester'', sc)]
      = Inr \<lparr>resp = [\<lparr>Id' = ''a'', Name = na, Semester = sa\<rparr>,
                     \<lparr>Id' = ''b'', Name = nb, Semester = sb\<rparr>,
                     \<lparr>Id' = ''c'', Name = nc, Semester = sc\<rparr>],
             rpc_err = None,
             db = [(''a.Name'', na), (''a.Semester'', sa), (''b.Name'', nb), (''b.Semester'', sb),
                   (''c.Name'', nc), (''c.Semester'', sc)],
             logged = [''List called'']\<rparr>"
    by (simp add: List_def List_body_def split_key_def item_Value_def healthy_def)
  ultimately show ?thesis by simp
qed


end
